theory Spec2Isabelle
  imports Main "HOL-Library.Word"
begin

section \<open>The script \<^verbatim>\<open>scripts/run_compile_loop.py\<close>\<close>

text \<open>
  The whole program is
  \<^verbatim>\<open>
  source = sys.argv[1] if len(sys.argv) > 1 else '42'
  run(['node', 'dist/main.js'], input=source.encode())
  \<close>
  It reads \<open>sys.argv\<close>, encodes one string and calls \<open>subprocess.run\<close> once.
  The embedding makes the three things the script touches explicit: Python strings
  (sequences of code points, which may hold lone surrogates when an argument was not
  valid UTF-8), the exceptions of \<open>str.encode\<close> and \<open>subprocess.run\<close>, and the host
  (whether the executable is found, whether it can be started, and what the child does).
\<close>

subsection \<open>Strings, bytes and exceptions\<close>

type_synonym byte = "8 word"

text \<open>
  A Python \<open>str\<close> is a sequence of code points, each below \<open>0x110000\<close>. CPython
  decodes the bytes of a command-line argument with the \<open>surrogateescape\<close> handler,
  so \<open>sys.argv\<close> can hold code points in \<open>0xD800..0xDFFF\<close>.
\<close>

type_synonym pystr = "nat list"

definition is_str :: "pystr \<Rightarrow> bool" where
  "is_str s = list_all (\<lambda>c. c < 0x110000) s"

definition str_lit :: "string \<Rightarrow> pystr" where
  "str_lit s = map of_char s"

datatype exn =
    UnicodeEncodeError
  | IndexError
  | FileNotFoundError string
  | PermissionError string
  | OSError nat string
  | CalledProcessError int "string list"

subsection \<open>\<open>str.encode()\<close>: UTF-8, strict\<close>

definition is_surrogate :: "nat \<Rightarrow> bool" where
  "is_surrogate c = (0xD800 \<le> c \<and> c \<le> 0xDFFF)"

definition utf8_char :: "nat \<Rightarrow> byte list" where
  "utf8_char c =
     (if c < 0x80 then [of_nat c]
      else if c < 0x800 then [of_nat (0xC0 + c div 64), of_nat (0x80 + c mod 64)]
      else if c < 0x10000 then
        [of_nat (0xE0 + c div 4096), of_nat (0x80 + c div 64 mod 64),
         of_nat (0x80 + c mod 64)]
      else
        [of_nat (0xF0 + c div 262144), of_nat (0x80 + c div 4096 mod 64),
         of_nat (0x80 + c div 64 mod 64), of_nat (0x80 + c mod 64)])"

text \<open>
  \<open>source.encode()\<close> takes the defaults \<open>encoding='utf-8'\<close>, \<open>errors='strict'\<close>:
  a surrogate code point raises \<open>UnicodeEncodeError\<close>, nothing is returned.
\<close>

fun encode :: "pystr \<Rightarrow> exn + byte list" where
  "encode [] = Inr []"
| "encode (c # cs) =
     (if is_surrogate c then Inl UnicodeEncodeError
      else case encode cs of
             Inl e \<Rightarrow> Inl e
           | Inr bs \<Rightarrow> Inr (utf8_char c @ bs))"

subsection \<open>The host and \<open>subprocess.run\<close>\<close>

text \<open>
  What a child process did: its exit status and what it wrote. The script passes
  neither \<open>stdout=\<close> nor \<open>stderr=\<close>, so the child inherits both streams and the
  parent never sees these bytes.
\<close>

record exited =
  exit_code :: int
  out_bytes :: "byte list"
  err_bytes :: "byte list"

text \<open>
  The host decides three things. \<open>on_path\<close>: is a file of that name found on the search
  path. \<open>launch_failure\<close>: the exception \<open>Popen\<close> raises for a command whose
  executable was found but could not be started (\<open>PermissionError\<close> for a file without
  the execute bit, another \<open>OSError\<close> for a bad format, a failed \<open>fork\<close>, no free
  descriptor for the pipe); \<open>None\<close> when the command starts. \<open>child\<close>: what the started
  process does with its standard input.
\<close>

record host =
  on_path :: "string \<Rightarrow> bool"
  launch_failure :: "string list \<Rightarrow> exn option"
  child :: "string list \<Rightarrow> byte list \<Rightarrow> exited"

record completed_process =
  args :: "string list"
  returncode :: int
  stdout :: "byte list option"
  stderr :: "byte list option"

text \<open>
  \<open>subprocess.run(args, input=..., check=...)\<close> with no capture and no timeout, as the
  standard library documents it: the executable is looked up (\<open>FileNotFoundError\<close> when
  it is missing), then started (the host's \<open>OSError\<close> when that fails); in both cases
  the exception leaves \<open>run\<close> and no child exists. Otherwise the child is fed \<open>input\<close>
  and its exit status is returned in a \<open>CompletedProcess\<close>; only \<open>check=True\<close> turns a
  non-zero status into \<open>CalledProcessError\<close>. The second component lists the children
  that were started, each with its command and the bytes given to its standard input.
\<close>

definition run ::
  "host \<Rightarrow> string list \<Rightarrow> byte list \<Rightarrow> bool
     \<Rightarrow> (exn + completed_process) \<times> (string list \<times> byte list) list" where
  "run h cmd inp check =
     (case cmd of
        [] \<Rightarrow> (Inl IndexError, [])
      | exe # _ \<Rightarrow>
          if \<not> on_path h exe then (Inl (FileNotFoundError exe), [])
          else
            (case launch_failure h cmd of
               Some e \<Rightarrow> (Inl e, [])
             | None \<Rightarrow>
                 let r = child h cmd inp in
                 (if check \<and> exit_code r \<noteq> 0
                  then Inl (CalledProcessError (exit_code r) cmd)
                  else Inr \<lparr>args = cmd, returncode = exit_code r,
                            stdout = None, stderr = None\<rparr>,
                  [(cmd, inp)])))"

subsection \<open>The script\<close>

text \<open>Line 7: \<open>source = sys.argv[1] if len(sys.argv) > 1 else '42'\<close>.\<close>

definition source :: "pystr list \<Rightarrow> pystr" where
  "source argv = (if length argv > 1 then argv ! 1 else str_lit ''42'')"

text \<open>
  What one execution of the script leaves behind: the children it started (command and
  standard input), the exception that ended it, if any, and the exit status of the
  interpreter (1 after an uncaught exception, 0 when the last statement returns).
\<close>

record outcome =
  spawned :: "(string list \<times> byte list) list"
  raised :: "exn option"
  exit_status :: nat

text \<open>
  Line 8: \<open>run(['node', 'dist/main.js'], input=source.encode())\<close>. The argument
  \<open>source.encode()\<close> is evaluated before \<open>run\<close> is entered; \<open>check\<close> keeps its
  default \<open>False\<close>; the returned \<open>CompletedProcess\<close> is dropped; nothing is caught.
\<close>

definition run_compile_loop :: "host \<Rightarrow> pystr list \<Rightarrow> outcome" where
  "run_compile_loop h argv =
     (case encode (source argv) of
        Inl e \<Rightarrow> \<lparr>spawned = [], raised = Some e, exit_status = 1\<rparr>
      | Inr payload \<Rightarrow>
          (case run h [''node'', ''dist/main.js''] payload False of
             (Inl e, started) \<Rightarrow> \<lparr>spawned = started, raised = Some e, exit_status = 1\<rparr>
           | (Inr _, started) \<Rightarrow> \<lparr>spawned = started, raised = None, exit_status = 0\<rparr>))"

subsection \<open>Reading UTF-8 back\<close>

text \<open>
  To say that a byte sequence is \<^emph>\<open>the UTF-8 form of\<close> a string, the bytes are read
  back with a decoder written independently of \<open>utf8_char\<close>: a lead byte announces how
  many continuation bytes follow and carries the high bits, each continuation byte
  \<open>10xxxxxx\<close> adds six more. \<open>utf8_dec k acc\<close> has \<open>k\<close> continuation bytes
  still to read for the code point accumulated in \<open>acc\<close>.
\<close>

definition is_cont :: "byte \<Rightarrow> bool" where
  "is_cont b = (0x80 \<le> unat b \<and> unat b < 0xC0)"

definition lead :: "byte \<Rightarrow> (nat \<times> nat) option" where
  "lead b =
     (if unat b < 0x80 then Some (0, unat b)
      else if unat b < 0xC0 then None
      else if unat b < 0xE0 then Some (1, unat b - 0xC0)
      else if unat b < 0xF0 then Some (2, unat b - 0xE0)
      else Some (3, unat b - 0xF0))"

fun utf8_dec :: "nat \<Rightarrow> nat \<Rightarrow> byte list \<Rightarrow> pystr option" where
  "utf8_dec k acc [] = (if k = 0 then Some [] else None)"
| "utf8_dec 0 acc (b # bs) =
     (case lead b of
        None \<Rightarrow> None
      | Some (k, v) \<Rightarrow>
          if k = 0 then map_option ((#) v) (utf8_dec 0 0 bs) else utf8_dec k v bs)"
| "utf8_dec (Suc k) acc (b # bs) =
     (if is_cont b
      then (if k = 0 then map_option ((#) (acc * 64 + (unat b - 0x80))) (utf8_dec 0 0 bs)
            else utf8_dec k (acc * 64 + (unat b - 0x80)) bs)
      else None)"

definition utf8_decode :: "byte list \<Rightarrow> pystr option" where
  "utf8_decode bs = utf8_dec 0 0 bs"

subsection \<open>Hosts and command lines to run the script on\<close>

text \<open>A host with \<open>node\<close> installed, whose child exits with status \<open>rc\<close> and prints nothing.\<close>

definition node_host :: "int \<Rightarrow> host" where
  "node_host rc =
     \<lparr>on_path = (\<lambda>exe. exe = ''node''),
      launch_failure = (\<lambda>cmd. None),
      child = (\<lambda>cmd inp. \<lparr>exit_code = rc, out_bytes = [], err_bytes = []\<rparr>)\<rparr>"

text \<open>A host on which no executable is found.\<close>

definition bare_host :: host where
  "bare_host =
     \<lparr>on_path = (\<lambda>exe. False),
      launch_failure = (\<lambda>cmd. None),
      child = (\<lambda>cmd inp. \<lparr>exit_code = 0, out_bytes = [], err_bytes = []\<rparr>)\<rparr>"

text \<open>A host on which \<open>node\<close> is found but is not executable.\<close>

definition locked_host :: host where
  "locked_host =
     \<lparr>on_path = (\<lambda>exe. exe = ''node''),
      launch_failure = (\<lambda>cmd. Some (PermissionError ''node'')),
      child = (\<lambda>cmd inp. \<lparr>exit_code = 0, out_bytes = [], err_bytes = []\<rparr>)\<rparr>"

text \<open>\<open>sys.argv[0]\<close>, the path the script was started under.\<close>

definition script_name :: pystr where
  "script_name = str_lit ''scripts/run_compile_loop.py''"

section \<open>Arithmetic of the encoding\<close>

lemma unat_byte: "n < 256 \<Longrightarrow> unat (of_nat n :: byte) = n"
  by (simp add: unat_of_nat)

lemma six_bits_twice: "((c::nat) div 4096 * 64 + c div 64 mod 64) * 64 + c mod 64 = c"
proof -
  have "c div 4096 = c div 64 div 64"
    by (simp add: div_mult2_eq [symmetric])
  then have "c div 4096 * 64 + c div 64 mod 64 = c div 64"
    by simp
  then show ?thesis
    by simp
qed

lemma six_bits_thrice:
  "(((c::nat) div 262144 * 64 + c div 4096 mod 64) * 64 + c div 64 mod 64) * 64 + c mod 64 = c"
proof -
  have hi: "c div 262144 = c div 4096 div 64"
    by (simp add: div_mult2_eq [symmetric])
  have mid: "c div 4096 = c div 64 div 64"
    by (simp add: div_mult2_eq [symmetric])
  have "c div 262144 * 64 + c div 4096 mod 64 = c div 4096"
    unfolding hi by simp
  then have "(c div 262144 * 64 + c div 4096 mod 64) * 64 + c div 64 mod 64 = c div 64"
    unfolding mid by simp
  then show ?thesis
    by simp
qed

section \<open>The decoder reads back what \<open>encode\<close> wrote\<close>

lemma dec_lead:
  "utf8_dec 0 acc (b # bs) =
     (case lead b of
        None \<Rightarrow> None
      | Some (k, v) \<Rightarrow> if k = 0 then map_option ((#) v) (utf8_dec 0 0 bs) else utf8_dec k v bs)"
  by simp

lemma dec_cont_last:
  "is_cont b \<Longrightarrow>
   utf8_dec (Suc 0) acc (b # bs) =
     map_option ((#) (acc * 64 + (unat b - 0x80))) (utf8_dec 0 0 bs)"
  by simp

lemma dec_cont_step:
  "is_cont b \<Longrightarrow>
   utf8_dec (Suc (Suc k)) acc (b # bs) = utf8_dec (Suc k) (acc * 64 + (unat b - 0x80)) bs"
  by simp

lemma cont_byte:
  assumes "n < 64"
  shows "is_cont (of_nat (0x80 + n))" and "unat (of_nat (0x80 + n) :: byte) - 0x80 = n"
proof -
  have u: "unat (of_nat (0x80 + n) :: byte) = 0x80 + n"
    using assms by (intro unat_byte) simp
  show "is_cont (of_nat (0x80 + n))"
    unfolding is_cont_def u using assms by simp
  show "unat (of_nat (0x80 + n) :: byte) - 0x80 = n"
    unfolding u by simp
qed

lemma lead_ascii: "c < 0x80 \<Longrightarrow> lead (of_nat c) = Some (0, c)"
  by (simp add: lead_def unat_byte)

lemma lead_two:
  assumes "n < 32"
  shows "lead (of_nat (0xC0 + n)) = Some (Suc 0, n)"
proof -
  have u: "unat (of_nat (0xC0 + n) :: byte) = 0xC0 + n"
    using assms by (intro unat_byte) simp
  show ?thesis
    unfolding lead_def u using assms by simp
qed

lemma lead_three:
  assumes "n < 16"
  shows "lead (of_nat (0xE0 + n)) = Some (Suc (Suc 0), n)"
proof -
  have u: "unat (of_nat (0xE0 + n) :: byte) = 0xE0 + n"
    using assms by (intro unat_byte) simp
  show ?thesis
    unfolding lead_def u using assms by simp
qed

lemma lead_four:
  assumes "n < 16"
  shows "lead (of_nat (0xF0 + n)) = Some (Suc (Suc (Suc 0)), n)"
proof -
  have u: "unat (of_nat (0xF0 + n) :: byte) = 0xF0 + n"
    using assms by (intro unat_byte) simp
  show ?thesis
    unfolding lead_def u using assms by simp
qed

lemma decode_char_ascii:
  assumes "c < 0x80"
  shows "utf8_dec 0 a (utf8_char c @ bs) = map_option ((#) c) (utf8_dec 0 0 bs)"
proof -
  have "utf8_char c = [of_nat c]"
    using assms by (simp add: utf8_char_def)
  then show ?thesis
    using lead_ascii [OF assms] by (simp only: append.simps dec_lead) simp
qed

lemma decode_char_two:
  assumes "\<not> c < 0x80" and "c < 0x800"
  shows "utf8_dec 0 a (utf8_char c @ bs) = map_option ((#) c) (utf8_dec 0 0 bs)"
proof -
  have e: "utf8_char c = [of_nat (0xC0 + c div 64), of_nat (0x80 + c mod 64)]"
    using assms by (simp add: utf8_char_def)
  have l: "lead (of_nat (0xC0 + c div 64)) = Some (Suc 0, c div 64)"
    using assms by (intro lead_two) simp
  have m: "c mod 64 < 64"
    by simp
  have v: "c div 64 * 64 + c mod 64 = c"
    by simp
  show ?thesis
    unfolding e append.simps dec_lead l
    by (simp only: option.case prod.case dec_cont_last [OF cont_byte(1) [OF m]]
          cont_byte(2) [OF m] v)
       simp
qed

lemma decode_char_three:
  assumes "\<not> c < 0x800" and "c < 0x10000"
  shows "utf8_dec 0 a (utf8_char c @ bs) = map_option ((#) c) (utf8_dec 0 0 bs)"
proof -
  have e: "utf8_char c =
      [of_nat (0xE0 + c div 4096), of_nat (0x80 + c div 64 mod 64), of_nat (0x80 + c mod 64)]"
    using assms by (simp add: utf8_char_def)
  have l: "lead (of_nat (0xE0 + c div 4096)) = Some (Suc (Suc 0), c div 4096)"
    using assms by (intro lead_three) simp
  have m1: "c div 64 mod 64 < 64" and m2: "c mod 64 < 64"
    by simp_all
  show ?thesis
    unfolding e append.simps dec_lead l
    by (simp only: option.case prod.case
          dec_cont_step [OF cont_byte(1) [OF m1]] cont_byte(2) [OF m1]
          dec_cont_last [OF cont_byte(1) [OF m2]] cont_byte(2) [OF m2] six_bits_twice)
       simp
qed

lemma decode_char_four:
  assumes "\<not> c < 0x10000" and "c < 0x110000"
  shows "utf8_dec 0 a (utf8_char c @ bs) = map_option ((#) c) (utf8_dec 0 0 bs)"
proof -
  have e: "utf8_char c =
      [of_nat (0xF0 + c div 262144), of_nat (0x80 + c div 4096 mod 64),
       of_nat (0x80 + c div 64 mod 64), of_nat (0x80 + c mod 64)]"
    using assms by (simp add: utf8_char_def)
  have l: "lead (of_nat (0xF0 + c div 262144)) = Some (Suc (Suc (Suc 0)), c div 262144)"
    using assms by (intro lead_four) simp
  have m0: "c div 4096 mod 64 < 64" and m1: "c div 64 mod 64 < 64" and m2: "c mod 64 < 64"
    by simp_all
  show ?thesis
    unfolding e append.simps dec_lead l
    by (simp only: option.case prod.case
          dec_cont_step [OF cont_byte(1) [OF m0]] cont_byte(2) [OF m0]
          dec_cont_step [OF cont_byte(1) [OF m1]] cont_byte(2) [OF m1]
          dec_cont_last [OF cont_byte(1) [OF m2]] cont_byte(2) [OF m2] six_bits_thrice)
       simp
qed

lemma decode_char:
  "c < 0x110000 \<Longrightarrow>
   utf8_dec 0 a (utf8_char c @ bs) = map_option ((#) c) (utf8_dec 0 0 bs)"
  using decode_char_ascii decode_char_two decode_char_three decode_char_four by blast

lemma decode_encode:
  "is_str s \<Longrightarrow> encode s = Inr bs \<Longrightarrow> utf8_decode bs = Some s"
  unfolding utf8_decode_def
proof (induction s arbitrary: bs)
  case Nil
  then show ?case by simp
next
  case (Cons c cs)
  from Cons.prems(2) obtain r where r: "encode cs = Inr r" and bs: "bs = utf8_char c @ r"
    by (auto split: if_splits sum.splits)
  from Cons.prems(1) have c: "c < 0x110000" and cs: "is_str cs"
    by (simp_all add: is_str_def)
  from Cons.IH [OF cs r] show ?case
    unfolding bs decode_char [OF c] by simp
qed

section \<open>When \<open>encode\<close> raises\<close>

lemma encode_error: "encode s = Inl e \<Longrightarrow> e = UnicodeEncodeError"
  by (induction s) (auto split: if_splits sum.splits)

lemma encode_raises_iff: "(encode s = Inl UnicodeEncodeError) = list_ex is_surrogate s"
  by (induction s) (auto split: sum.splits dest: encode_error)

lemma encode_returns_iff: "(\<exists>bs. encode s = Inr bs) = list_all (\<lambda>c. \<not> is_surrogate c) s"
  by (induction s) (auto split: sum.splits)

lemma encode_42: "encode (str_lit ''42'') = Inr [0x34, 0x32]"
  by (simp add: str_lit_def is_surrogate_def utf8_char_def)

section \<open>The ways the script can end\<close>

lemma run_node:
  "run h [''node'', ''dist/main.js''] p False =
     (if \<not> on_path h ''node'' then (Inl (FileNotFoundError ''node''), [])
      else case launch_failure h [''node'', ''dist/main.js''] of
             Some e \<Rightarrow> (Inl e, [])
           | None \<Rightarrow>
               (Inr \<lparr>args = [''node'', ''dist/main.js''],
                      returncode = exit_code (child h [''node'', ''dist/main.js''] p),
                      stdout = None, stderr = None\<rparr>,
                [([''node'', ''dist/main.js''], p)]))"
  by (simp add: run_def Let_def split: option.splits)

lemma loop_encoded:
  assumes "encode (source argv) = Inr p"
  shows "run_compile_loop h argv =
     (if \<not> on_path h ''node''
      then \<lparr>spawned = [], raised = Some (FileNotFoundError ''node''), exit_status = 1\<rparr>
      else case launch_failure h [''node'', ''dist/main.js''] of
             Some e \<Rightarrow> \<lparr>spawned = [], raised = Some e, exit_status = 1\<rparr>
           | None \<Rightarrow>
               \<lparr>spawned = [([''node'', ''dist/main.js''], p)], raised = None,
                  exit_status = 0\<rparr>)"
  unfolding run_compile_loop_def assms run_node by (simp split: option.splits)

lemma loop_not_encoded:
  assumes "encode (source argv) = Inl e"
  shows "run_compile_loop h argv = \<lparr>spawned = [], raised = Some e, exit_status = 1\<rparr>"
  unfolding run_compile_loop_def assms by simp

lemma loop_spawned:
  "spawned (run_compile_loop h argv) =
     (case encode (source argv) of
        Inl e \<Rightarrow> []
      | Inr p \<Rightarrow>
          if on_path h ''node'' \<and> launch_failure h [''node'', ''dist/main.js''] = None
          then [([''node'', ''dist/main.js''], p)] else [])"
  by (cases "encode (source argv)")
     (simp_all add: loop_encoded loop_not_encoded split: option.splits)

section \<open>The payload\<close>

text \<open>
  C1. When at least one command-line argument is given (\<open>len(sys.argv) > 1\<close>), the
  standard input of the child is exactly the UTF-8 encoding of the first argument:
  the children started are none when \<open>encode\<close> raises, \<open>node\<close> is missing or it
  cannot be started, and otherwise the single child fed \<open>encode (argv ! 1)\<close>; whatever
  a child was fed reads back, byte for byte and with nothing left over, as the argument
  itself.
\<close>

theorem argument_passthrough:
  assumes "1 < length argv"
  shows "spawned (run_compile_loop h argv) =
           (case encode (argv ! 1) of
              Inl e \<Rightarrow> []
            | Inr p \<Rightarrow>
                if on_path h ''node'' \<and> launch_failure h [''node'', ''dist/main.js''] = None
                then [([''node'', ''dist/main.js''], p)] else [])
         \<and> (\<forall>cmd p. (cmd, p) \<in> set (spawned (run_compile_loop h argv)) \<longrightarrow>
               encode (argv ! 1) = Inr p \<and> (is_str (argv ! 1) \<longrightarrow> utf8_decode p = Some (argv ! 1)))"
proof -
  have s: "source argv = argv ! 1"
    using assms by (simp add: source_def)
  have sp: "spawned (run_compile_loop h argv) =
           (case encode (argv ! 1) of
              Inl e \<Rightarrow> []
            | Inr p \<Rightarrow>
                if on_path h ''node'' \<and> launch_failure h [''node'', ''dist/main.js''] = None
                then [([''node'', ''dist/main.js''], p)] else [])"
    using loop_spawned [of h argv] unfolding s .
  have "encode (argv ! 1) = Inr p \<and> (is_str (argv ! 1) \<longrightarrow> utf8_decode p = Some (argv ! 1))"
    if "(cmd, p) \<in> set (spawned (run_compile_loop h argv))" for cmd p
  proof -
    from that have e: "encode (argv ! 1) = Inr p"
      unfolding sp by (auto split: sum.splits if_splits)
    then show ?thesis
      using decode_encode by blast
  qed
  with sp show ?thesis
    by blast
qed

theorem argument_passthrough_witness:
  "1 < length [script_name, str_lit ''hello'']
   \<and> spawned (run_compile_loop (node_host 0) [script_name, str_lit ''hello''])
       = [([''node'', ''dist/main.js''], [0x68, 0x65, 0x6C, 0x6C, 0x6F])]
   \<and> is_str (str_lit ''hello'')
   \<and> utf8_decode [0x68, 0x65, 0x6C, 0x6C, 0x6F] = Some (str_lit ''hello'')"
proof -
  let ?argv = "[script_name, str_lit ''hello'']"
  let ?bytes = "[0x68, 0x65, 0x6C, 0x6C, 0x6F] :: byte list"
  have l: "1 < length ?argv"
    by simp
  have e: "encode (?argv ! 1) = Inr ?bytes"
    by (simp add: str_lit_def is_surrogate_def utf8_char_def)
  have s: "is_str (?argv ! 1)"
    by (simp add: str_lit_def is_str_def)
  have n: "on_path (node_host 0) ''node''"
    "launch_failure (node_host 0) [''node'', ''dist/main.js''] = None"
    by (simp_all add: node_host_def)
  note t = argument_passthrough [OF l, of "node_host 0"]
  have sp: "spawned (run_compile_loop (node_host 0) ?argv) = [([''node'', ''dist/main.js''], ?bytes)]"
    using conjunct1 [OF t] unfolding e by (simp add: n)
  have "(([''node'', ''dist/main.js''], ?bytes)) \<in> set (spawned (run_compile_loop (node_host 0) ?argv))"
    unfolding sp by simp
  with conjunct2 [OF t] s have "utf8_decode ?bytes = Some (?argv ! 1)"
    by blast
  with l sp s show ?thesis
    by simp
qed

text \<open>
  C2. With no command-line argument (\<open>sys.argv\<close> holds the script name alone), the
  string chosen is the literal \<open>'42'\<close> and every child started is fed exactly its two
  bytes \<open>0x34 0x32\<close>; one child is started whenever \<open>node\<close> is found and starts.
\<close>

theorem default_selection:
  assumes "length argv \<le> 1"
  shows "source argv = str_lit ''42''
         \<and> encode (source argv) = Inr [0x34, 0x32]
         \<and> spawned (run_compile_loop h argv) =
             (if on_path h ''node'' \<and> launch_failure h [''node'', ''dist/main.js''] = None
              then [([''node'', ''dist/main.js''], [0x34, 0x32])] else [])"
proof -
  have s: "source argv = str_lit ''42''"
    using assms by (simp add: source_def)
  then have e: "encode (source argv) = Inr [0x34, 0x32]"
    by (simp only: encode_42)
  show ?thesis
    using s e by (simp add: loop_spawned)
qed

theorem default_selection_witness:
  "length [script_name] \<le> 1
   \<and> source [script_name] = [0x34, 0x32]
   \<and> spawned (run_compile_loop (node_host 0) [script_name])
       = [([''node'', ''dist/main.js''], [0x34, 0x32])]"
  using default_selection [of "[script_name]" "node_host 0"]
  by (simp add: node_host_def str_lit_def)

text \<open>
  C9. An argument that is present but empty is not replaced by the default: the string
  chosen is empty, its encoding is the empty byte sequence (which is not the encoding of
  \<open>'42'\<close>), and the child started, if \<open>node\<close> is found and starts, is fed no bytes
  at all.
\<close>

theorem empty_argument_not_default:
  assumes "1 < length argv" and "argv ! 1 = []"
  shows "source argv = []
         \<and> encode (source argv) = Inr []
         \<and> encode (source argv) \<noteq> encode (str_lit ''42'')
         \<and> spawned (run_compile_loop h argv) =
             (if on_path h ''node'' \<and> launch_failure h [''node'', ''dist/main.js''] = None
              then [([''node'', ''dist/main.js''], [])] else [])"
proof -
  have s: "source argv = []"
    using assms by (simp add: source_def)
  then have e: "encode (source argv) = Inr []"
    by simp
  show ?thesis
    using s e by (simp add: loop_spawned encode_42)
qed

theorem empty_argument_not_default_witness:
  "1 < length [script_name, []] \<and> [script_name, []] ! 1 = ([] :: pystr)
   \<and> spawned (run_compile_loop (node_host 0) [script_name, []])
       = [([''node'', ''dist/main.js''], [])]"
  using empty_argument_not_default [of "[script_name, []]" "node_host 0"]
  by (simp add: node_host_def)

text \<open>
  C10. Arguments after the first are never read: running with \<open>sys.argv\<close> equal to
  \<open>a0 # a1 # rest\<close> ends exactly as running with \<open>[a0, a1]\<close> does: same children,
  same command, same standard input, same exception or exit status.
\<close>

theorem extra_arguments_ignored:
  "run_compile_loop h (a0 # a1 # rest) = run_compile_loop h [a0, a1]"
  by (simp add: run_compile_loop_def source_def)

section \<open>Failures and what the invoker reports\<close>

text \<open>
  C3, as stated, would have a non-zero exit status of the child end the invoker with
  an exception or a non-zero status. It does not: on a host where \<open>node\<close> starts and
  exits with status 1, the script raises nothing and exits with status 0.
\<close>

theorem child_failure_counterexample:
  "spawned (run_compile_loop (node_host 1) [script_name])
     = [([''node'', ''dist/main.js''], [0x34, 0x32])]
   \<and> exit_code (child (node_host 1) [''node'', ''dist/main.js''] [0x34, 0x32]) = 1
   \<and> raised (run_compile_loop (node_host 1) [script_name]) = None
   \<and> exit_status (run_compile_loop (node_host 1) [script_name]) = 0"
  by (simp add: run_compile_loop_def source_def run_def node_host_def str_lit_def
        is_surrogate_def utf8_char_def)

text \<open>
  C3, amended. When a child was started and exited with a non-zero status, the
  invoker raises no exception and itself exits with status 0: \<open>run\<close> is called with
  \<open>check\<close> left at \<open>False\<close> and its result is dropped, so the child's status goes
  nowhere.
\<close>

theorem child_failure_discarded:
  assumes "(cmd, p) \<in> set (spawned (run_compile_loop h argv))"
    and "exit_code (child h cmd p) \<noteq> 0"
  shows "raised (run_compile_loop h argv) = None
         \<and> exit_status (run_compile_loop h argv) = 0"
proof (cases "encode (source argv)")
  case (Inl e)
  with assms(1) show ?thesis
    by (simp add: loop_not_encoded)
next
  case (Inr q)
  with assms(1) show ?thesis
    by (simp add: loop_encoded split: if_splits option.splits)
qed

theorem child_failure_discarded_witness:
  "([''node'', ''dist/main.js''], [0x34, 0x32])
     \<in> set (spawned (run_compile_loop (node_host 1) [script_name]))
   \<and> exit_code (child (node_host 1) [''node'', ''dist/main.js''] [0x34, 0x32]) \<noteq> 0
   \<and> raised (run_compile_loop (node_host 1) [script_name]) = None
   \<and> exit_status (run_compile_loop (node_host 1) [script_name]) = 0"
proof -
  have e: "encode (source [script_name]) = Inr [0x34, 0x32]"
    by (simp add: source_def encode_42)
  have n: "on_path (node_host 1) ''node''"
    "launch_failure (node_host 1) [''node'', ''dist/main.js''] = None"
    by (simp_all add: node_host_def)
  have m: "([''node'', ''dist/main.js''], [0x34, 0x32])
             \<in> set (spawned (run_compile_loop (node_host 1) [script_name]))"
    by (simp add: loop_encoded [OF e] n)
  have x: "exit_code (child (node_host 1) [''node'', ''dist/main.js''] [0x34, 0x32]) \<noteq> 0"
    by (simp add: node_host_def)
  from child_failure_discarded [OF m x] m x show ?thesis
    by blast
qed

text \<open>
  C4. Nothing the child does reaches the invoker's result: replacing the child's
  behaviour (exit status, standard output, standard error) by any other leaves the
  outcome of the run unchanged.
\<close>

theorem child_result_not_observed:
  "run_compile_loop (h\<lparr>child := c\<rparr>) argv = run_compile_loop h argv"
  by (cases "encode (source argv)") (simp_all add: loop_encoded loop_not_encoded)

text \<open>
  C5. When \<open>node\<close> is not found, the run ends with an exception and a non-zero exit
  status, and no child was started; when the payload could be encoded, the exception is
  the \<open>FileNotFoundError\<close> of \<open>run\<close>.
\<close>

theorem missing_executable_fails:
  assumes "\<not> on_path h ''node''"
  shows "raised (run_compile_loop h argv) \<noteq> None
         \<and> exit_status (run_compile_loop h argv) \<noteq> 0
         \<and> spawned (run_compile_loop h argv) = []
         \<and> (list_all (\<lambda>c. \<not> is_surrogate c) (source argv) \<longrightarrow>
              raised (run_compile_loop h argv) = Some (FileNotFoundError ''node''))"
proof (cases "encode (source argv)")
  case (Inl e)
  then have "\<not> list_all (\<lambda>c. \<not> is_surrogate c) (source argv)"
    using encode_returns_iff [of "source argv"] by simp
  with Inl show ?thesis
    by (simp add: loop_not_encoded)
next
  case (Inr p)
  with assms show ?thesis
    by (simp add: loop_encoded)
qed

theorem missing_executable_fails_witness:
  "\<not> on_path bare_host ''node''
   \<and> raised (run_compile_loop bare_host [script_name, str_lit ''hello''])
       = Some (FileNotFoundError ''node'')
   \<and> exit_status (run_compile_loop bare_host [script_name, str_lit ''hello'']) = 1
   \<and> spawned (run_compile_loop bare_host [script_name, str_lit ''hello'']) = []"
proof -
  have n: "\<not> on_path bare_host ''node''"
    by (simp add: bare_host_def)
  have a: "list_all (\<lambda>c. \<not> is_surrogate c) (source [script_name, str_lit ''hello''])"
    by (simp add: source_def str_lit_def is_surrogate_def)
  have x: "exit_status (run_compile_loop bare_host [script_name, str_lit ''hello'']) = 1"
    by (simp add: run_compile_loop_def source_def run_def bare_host_def str_lit_def
          is_surrogate_def utf8_char_def)
  from missing_executable_fails [OF n, of "[script_name, str_lit ''hello'']"] a n x
  show ?thesis
    by blast
qed

section \<open>How many children, and which command\<close>

text \<open>
  C6, as stated, has exactly one child started whatever the argument is. An argument
  that is not valid UTF-8 reaches the script as a string with a lone surrogate (here
  the byte \<open>0xFF\<close>, decoded to \<open>U+DCFF\<close>); \<open>source.encode()\<close> raises before \<open>run\<close> is
  entered and no child is started, although \<open>node\<close> is there.
\<close>

theorem single_child_counterexample:
  "on_path (node_host 0) ''node''
   \<and> is_str [0xDCFF]
   \<and> spawned (run_compile_loop (node_host 0) [script_name, [0xDCFF]]) = []
   \<and> length (spawned (run_compile_loop (node_host 0) [script_name, [0xDCFF]])) \<noteq> 1
   \<and> raised (run_compile_loop (node_host 0) [script_name, [0xDCFF]])
       = Some UnicodeEncodeError"
  by (simp add: run_compile_loop_def source_def node_host_def is_surrogate_def is_str_def)

text \<open>
  C6, amended. A run starts at most one child. With or without an argument, it starts
  exactly one when the string chosen holds no surrogate code point, \<open>node\<close> is found and
  the host starts it; it starts none when \<open>encode\<close> raises, when \<open>node\<close> is missing, or
  when starting it fails with an \<open>OSError\<close> such as \<open>PermissionError\<close>.
\<close>

theorem at_most_one_child:
  "length (spawned (run_compile_loop h argv)) \<le> 1
   \<and> length (spawned (run_compile_loop h argv)) =
       (if list_all (\<lambda>c. \<not> is_surrogate c) (source argv)
           \<and> on_path h ''node''
           \<and> launch_failure h [''node'', ''dist/main.js''] = None
        then 1 else 0)"
proof (cases "encode (source argv)")
  case (Inl e)
  then have "\<not> list_all (\<lambda>c. \<not> is_surrogate c) (source argv)"
    using encode_returns_iff [of "source argv"] by simp
  with Inl show ?thesis
    by (simp add: loop_not_encoded)
next
  case (Inr p)
  then have "list_all (\<lambda>c. \<not> is_surrogate c) (source argv)"
    using encode_returns_iff [of "source argv"] by blast
  with Inr show ?thesis
    by (simp add: loop_spawned)
qed

theorem at_most_one_child_witness:
  "length (spawned (run_compile_loop (node_host 0) [script_name])) = 1
   \<and> length (spawned (run_compile_loop (node_host 0) [script_name, str_lit ''hello''])) = 1
   \<and> length (spawned (run_compile_loop (node_host 0) [script_name, [0xDCFF]])) = 0
   \<and> length (spawned (run_compile_loop bare_host [script_name])) = 0
   \<and> length (spawned (run_compile_loop locked_host [script_name])) = 0"
  using at_most_one_child [of "node_host 0" "[script_name]"]
    at_most_one_child [of "node_host 0" "[script_name, str_lit ''hello'']"]
    at_most_one_child [of "node_host 0" "[script_name, [0xDCFF]]"]
    at_most_one_child [of bare_host "[script_name]"]
    at_most_one_child [of locked_host "[script_name]"]
  by (simp add: source_def str_lit_def is_surrogate_def node_host_def bare_host_def
        locked_host_def)

text \<open>
  C7. Whatever two runs are given as arguments and on whatever hosts, any child of
  the one and any child of the other were started with the same command, the constant
  \<open>['node', 'dist/main.js']\<close>: the arguments reach the standard input only.
\<close>

theorem command_is_constant:
  assumes "(cmd1, p1) \<in> set (spawned (run_compile_loop h1 argv1))"
    and "(cmd2, p2) \<in> set (spawned (run_compile_loop h2 argv2))"
  shows "cmd1 = cmd2 \<and> cmd1 = [''node'', ''dist/main.js'']"
proof -
  have "cmd = [''node'', ''dist/main.js'']"
    if "(cmd, p) \<in> set (spawned (run_compile_loop h argv))" for cmd p h argv
    using that unfolding loop_spawned by (auto split: sum.splits if_splits)
  with assms show ?thesis
    by blast
qed

theorem command_is_constant_witness:
  "([''node'', ''dist/main.js''], [0x34, 0x32])
     \<in> set (spawned (run_compile_loop (node_host 0) [script_name]))
   \<and> ([''node'', ''dist/main.js''], [])
     \<in> set (spawned (run_compile_loop (node_host 3) [script_name, [], str_lit ''x'']))"
proof -
  have e1: "encode (source [script_name]) = Inr [0x34, 0x32]"
    by (simp add: source_def encode_42)
  have e2: "encode (source [script_name, [], str_lit ''x'']) = Inr []"
    by (simp add: source_def)
  have m1: "([''node'', ''dist/main.js''], [0x34, 0x32])
              \<in> set (spawned (run_compile_loop (node_host 0) [script_name]))"
    by (simp add: loop_encoded [OF e1] node_host_def)
  have m2: "([''node'', ''dist/main.js''], [])
              \<in> set (spawned (run_compile_loop (node_host 3) [script_name, [], str_lit ''x'']))"
    by (simp add: loop_encoded [OF e2] node_host_def)
  from command_is_constant [OF m1 m2] m1 m2 show ?thesis
    by blast
qed

end
